theory Spec2Isabelle
  imports Complex_Main "HOL-Library.Word" "HOL-Library.Signed_Division"
begin

unbundle bit_operations_syntax

section \<open>The wire protocol (microcontroller/protocol.h)\<close>

type_synonym u8 = "8 word"
type_synonym u16 = "16 word"
type_synonym i16 = "16 word"
type_synonym i32 = "32 word"

definition VERSION :: u8 where "VERSION = 10"
definition NUM_AXES :: nat where "NUM_AXES = 8"
definition MAX_KEYFRAMES :: nat where "MAX_KEYFRAMES = 128"

definition CMD_INIT :: u8 where "CMD_INIT = 0"
definition CMD_RESET :: u8 where "CMD_RESET = 1"
definition CMD_CONFIG :: u8 where "CMD_CONFIG = 2"
definition CMD_READ_KEYFRAME :: u8 where "CMD_READ_KEYFRAME = 3"
definition CMD_SAVE_KEYFRAME :: u8 where "CMD_SAVE_KEYFRAME = 4"
definition CMD_EXIT :: u8 where "CMD_EXIT = 5"
definition CMD_COMMIT :: u8 where "CMD_COMMIT = 6"
definition CMD_PLAY :: u8 where "CMD_PLAY = 7"
definition CMD_STOP :: u8 where "CMD_STOP = 8"
definition CMD_FEEDBACK :: u8 where "CMD_FEEDBACK = 9"
definition CMD_MOTION :: u8 where "CMD_MOTION = 10"
definition CMD_COUNT :: u8 where "CMD_COUNT = 11"

text \<open>
  \<^verbatim>\<open>packetChecksum\<close>: the 8-bit sum of command, version and length and of the first
  \<^verbatim>\<open>length\<close> payload bytes, complemented. The header is passed as its three summed
  fields; a null payload pointer is the empty list with length 0.
\<close>

definition packetChecksum :: "u8 \<Rightarrow> u8 \<Rightarrow> u8 \<Rightarrow> u8 list \<Rightarrow> u8" where
  "packetChecksum cmd ver len payload =
     NOT (fold (\<lambda>b checksum. checksum + b) (take (unat len) payload) (cmd + ver + len))"

text \<open>
  The byte image of a packet: \<^verbatim>\<open>PacketHeader\<close> (0xFF, version, command, length), the
  payload, the checksum and the terminator 0x0D. \<^verbatim>\<open>SimplePacket\<close> is the case of an
  empty payload.
\<close>

definition Packet :: "u8 \<Rightarrow> u8 list \<Rightarrow> u8 list" where
  "Packet cmd payload =
     [0xFF, VERSION, cmd, of_nat (length payload)] @ payload @
     [packetChecksum cmd VERSION (of_nat (length payload)) payload, 0x0D]"

definition SimplePacket :: "u8 \<Rightarrow> u8 list" where
  "SimplePacket cmd = Packet cmd []"

section \<open>The packet parser (microcontroller/commands.cpp, cmd_input)\<close>

datatype ParserState =
  PS_START | PS_VERSION | PS_COMMAND | PS_LENGTH | PS_PAYLOAD | PS_CHECKSUM | PS_END

text \<open>
  The parser's globals. \<^verbatim>\<open>payloadBuffer\<close> has 256 entries and is indexed by a
  \<^verbatim>\<open>uint8_t\<close>, so it is a total function on bytes.
\<close>

record parser =
  parser_state :: ParserState
  command :: u8
  payloadLength :: u8
  payloadIdx :: u8
  payloadBuffer :: "u8 \<Rightarrow> u8"

text \<open>
  A call \<^verbatim>\<open>handleCommand(command, payloadBuffer, payloadLength)\<close> made by the parser.
\<close>

type_synonym dispatch = "u8 \<times> (u8 \<Rightarrow> u8) \<times> u8"

definition parser_checksum :: "parser \<Rightarrow> u8" where
  "parser_checksum p =
     NOT (fold (\<lambda>i checksum. checksum + payloadBuffer p (of_nat i))
            [0..<unat (payloadLength p)]
            (VERSION + command p + payloadLength p))"

text \<open>
  \<^verbatim>\<open>cmd_input\<close> consumes one byte. The result is the new parser state and, when the
  source returns true, the call of \<^verbatim>\<open>handleCommand\<close> it has made (\<open>None\<close> when it
  returns false).
\<close>

definition cmd_input :: "parser \<Rightarrow> u8 \<Rightarrow> parser \<times> dispatch option" where
  "cmd_input p c =
     (case parser_state p of
        PS_START \<Rightarrow>
          (if c = 0xFF then p\<lparr>payloadIdx := 0, parser_state := PS_VERSION\<rparr>
           else p\<lparr>payloadIdx := 0\<rparr>, None)
      | PS_VERSION \<Rightarrow>
          (if c = VERSION then p\<lparr>parser_state := PS_COMMAND\<rparr>
           else p\<lparr>parser_state := PS_START\<rparr>, None)
      | PS_COMMAND \<Rightarrow>
          (if c < CMD_COUNT then p\<lparr>command := c, parser_state := PS_LENGTH\<rparr>
           else p\<lparr>command := c, parser_state := PS_START\<rparr>, None)
      | PS_LENGTH \<Rightarrow>
          (if c \<noteq> 0 then p\<lparr>payloadLength := c, parser_state := PS_PAYLOAD\<rparr>
           else p\<lparr>payloadLength := c, parser_state := PS_CHECKSUM\<rparr>, None)
      | PS_PAYLOAD \<Rightarrow>
          (let p1 = p\<lparr>payloadBuffer := (payloadBuffer p)(payloadIdx p := c),
                        payloadIdx := payloadIdx p + 1\<rparr>
           in (if payloadIdx p1 = payloadLength p1 then p1\<lparr>parser_state := PS_CHECKSUM\<rparr>
               else p1, None))
      | PS_CHECKSUM \<Rightarrow>
          (if parser_checksum p = c then p\<lparr>parser_state := PS_END\<rparr>
           else p\<lparr>parser_state := PS_START\<rparr>, None)
      | PS_END \<Rightarrow>
          (p\<lparr>parser_state := PS_START\<rparr>,
           if c = 0x0D then Some (command p, payloadBuffer p, payloadLength p) else None))"

text \<open>Feeding a byte sequence in order, collecting the calls of \<^verbatim>\<open>handleCommand\<close>.\<close>

fun feed :: "parser \<Rightarrow> u8 list \<Rightarrow> parser \<times> dispatch list" where
  "feed p [] = (p, [])"
| "feed p (c # cs) =
     (case cmd_input p c of
        (p1, d) \<Rightarrow> (case feed p1 cs of
                      (p2, ds) \<Rightarrow> (p2, (case d of None \<Rightarrow> [] | Some x \<Rightarrow> [x]) @ ds)))"

text \<open>The parsed packet a call stands for: command, length and the first length bytes.\<close>

definition packet_of :: "dispatch \<Rightarrow> u8 \<times> u8 \<times> u8 list" where
  "packet_of d = (case d of (cmd, buf, len) \<Rightarrow>
     (cmd, len, map (\<lambda>i. buf (of_nat i)) [0..<unat len]))"

text \<open>The parser's globals at start-up (zero-initialised statics).\<close>

definition parser_init :: parser where
  "parser_init = \<lparr>parser_state = PS_START, command = 0, payloadLength = 0,
     payloadIdx = 0, payloadBuffer = (\<lambda>_. 0)\<rparr>"

text \<open>The payload buffer after the bytes of a list have been stored from an index on, as
  the PAYLOAD state does byte by byte.\<close>

fun fill :: "(u8 \<Rightarrow> u8) \<Rightarrow> u8 \<Rightarrow> u8 list \<Rightarrow> (u8 \<Rightarrow> u8)" where
  "fill buf i [] = buf"
| "fill buf i (x # xs) = fill (buf(i := x)) (i + 1) xs"

section \<open>Payload structs (packed, little-endian)\<close>

record proto_Keyframe =
  duration :: u16
  ticks :: "u16 list"
  output_command :: u8

record proto_Config =
  num_keyframes :: u16
  active_axes :: u16
  enc_to_mot :: "u16 list"
  lookahead :: u16

definition u16_at :: "(u8 \<Rightarrow> u8) \<Rightarrow> u8 \<Rightarrow> u16" where
  "u16_at payload i = ucast (payload i) + 256 * ucast (payload (i + 1))"

definition u16_bytes :: "u16 \<Rightarrow> u8 list" where
  "u16_bytes w = [ucast w, ucast (drop_bit 8 w)]"

text \<open>Reading a struct through the cast payload pointer, at a byte offset.\<close>

definition Keyframe_at :: "(u8 \<Rightarrow> u8) \<Rightarrow> u8 \<Rightarrow> proto_Keyframe" where
  "Keyframe_at payload off =
     \<lparr>duration = u16_at payload off,
      ticks = map (\<lambda>k. u16_at payload (off + 2 + 2 * of_nat k)) [0..<NUM_AXES],
      output_command = payload (off + 18)\<rparr>"

definition Config_at :: "(u8 \<Rightarrow> u8) \<Rightarrow> proto_Config" where
  "Config_at payload =
     \<lparr>num_keyframes = u16_at payload 0,
      active_axes = u16_at payload 2,
      enc_to_mot = map (\<lambda>k. u16_at payload (4 + 2 * of_nat k)) [0..<NUM_AXES],
      lookahead = u16_at payload 20\<rparr>"

definition Keyframe_bytes :: "proto_Keyframe \<Rightarrow> u8 list" where
  "Keyframe_bytes kf =
     u16_bytes (duration kf) @ concat (map u16_bytes (ticks kf)) @ [output_command kf]"

definition Config_bytes :: "proto_Config \<Rightarrow> u8 list" where
  "Config_bytes c =
     u16_bytes (num_keyframes c) @ u16_bytes (active_axes c) @
     concat (map u16_bytes (enc_to_mot c)) @ u16_bytes (lookahead c)"

definition sizeof_SaveKeyframe :: u8 where "sizeof_SaveKeyframe = 20"
definition sizeof_ReadKeyframe :: u8 where "sizeof_ReadKeyframe = 1"
definition sizeof_Config :: u8 where "sizeof_Config = 22"

definition RESET_KEY :: "u8 list" where
  "RESET_KEY = [0x0A, 0x65, 0x38, 0x47, 0x82, 0xAB, 0xBF, 0x00]"

section \<open>The device: memory, sequencer flags and command handling\<close>

text \<open>
  What a command does beyond the device's memory is recorded in order of occurrence:
  the bytes handed to \<^verbatim>\<open>writeAnswer\<close>, the text printed, and the calls into the
  sequencer, the bus driver and the bootloader, whose bodies are not unfolded here.
\<close>

datatype effect =
    Answer "u8 list"
  | Print string
  | Call_isInStartPosition
  | Call_runSequence bool
  | Call_executeSingleMotion
  | Call_writeFeedbackPacket u8
  | Jump_bootloader

text \<open>
  \<^verbatim>\<open>mem_config\<close> is the configuration in RAM, \<^verbatim>\<open>g_buffer\<close> the keyframe buffer in RAM,
  \<^verbatim>\<open>g_keyframe_memory\<close> and \<^verbatim>\<open>g_config_memory\<close> the EEPROM images. The flag
  \<^verbatim>\<open>out_of_bounds\<close> is raised when the source indexes an array outside its
  \<^verbatim>\<open>MAX_KEYFRAMES\<close> entries, which C++ leaves undefined.
\<close>

record device =
  mem_config :: proto_Config
  g_buffer :: "proto_Keyframe list"
  g_keyframe_memory :: "proto_Keyframe list"
  g_config_memory :: proto_Config
  g_isPlaying :: bool
  g_shouldStop :: bool
  g_extShouldQuit :: bool
  effects :: "effect list"
  out_of_bounds :: bool

definition writeAnswer :: "device \<Rightarrow> u8 list \<Rightarrow> device" where
  "writeAnswer d bytes = d\<lparr>effects := effects d @ [Answer bytes]\<rparr>"

definition call :: "device \<Rightarrow> effect \<Rightarrow> device" where
  "call d e = d\<lparr>effects := effects d @ [e]\<rparr>"

definition motion_isPlaying :: "device \<Rightarrow> bool" where
  "motion_isPlaying d = g_isPlaying d"

definition motion_stop :: "device \<Rightarrow> device" where
  "motion_stop d = d\<lparr>g_shouldStop := True\<rparr>"

definition motion_writeToBuffer :: "device \<Rightarrow> u8 \<Rightarrow> proto_Keyframe \<Rightarrow> device" where
  "motion_writeToBuffer d index kf =
     (if unat index \<ge> MAX_KEYFRAMES then d
      else d\<lparr>g_buffer := (g_buffer d)[unat index := kf]\<rparr>)"

definition mem_saveKeyframe :: "device \<Rightarrow> nat \<Rightarrow> proto_Keyframe \<Rightarrow> device" where
  "mem_saveKeyframe d index src =
     d\<lparr>g_keyframe_memory := (g_keyframe_memory d)[index := src]\<rparr>"

definition mem_saveConfig :: "device \<Rightarrow> device" where
  "mem_saveConfig d = d\<lparr>g_config_memory := mem_config d\<rparr>"

text \<open>
  \<^verbatim>\<open>motion_commit\<close>: the loop over \<^verbatim>\<open>i < mem_config.num_keyframes\<close> saves
  \<^verbatim>\<open>g_buffer[i]\<close> to the EEPROM slot \<open>i\<close>, then the configuration is saved. A count
  above \<^verbatim>\<open>MAX_KEYFRAMES\<close> reads past the buffer.
\<close>

definition motion_commit :: "device \<Rightarrow> device" where
  "motion_commit d =
     (let n = unat (num_keyframes (mem_config d)) in
      if n \<le> MAX_KEYFRAMES
      then mem_saveConfig (fold (\<lambda>i d'. mem_saveKeyframe d' i (g_buffer d' ! i)) [0..<n] d)
      else d\<lparr>out_of_bounds := True\<rparr>)"

definition handleCommand :: "device \<Rightarrow> u8 \<Rightarrow> (u8 \<Rightarrow> u8) \<Rightarrow> u8 \<Rightarrow> device" where
  "handleCommand d cmd payload len =
     (if cmd = CMD_INIT then writeAnswer d (SimplePacket CMD_INIT)
      else if cmd = CMD_EXIT then
        (writeAnswer d (SimplePacket CMD_EXIT))\<lparr>g_extShouldQuit := True\<rparr>
      else if cmd = CMD_SAVE_KEYFRAME then
        (if len \<noteq> sizeof_SaveKeyframe \<or> motion_isPlaying d then d
         else writeAnswer (motion_writeToBuffer d (payload 0) (Keyframe_at payload 1))
                (SimplePacket CMD_SAVE_KEYFRAME))
      else if cmd = CMD_READ_KEYFRAME then
        (if len \<noteq> sizeof_ReadKeyframe then d
         else if unat (payload 0) < MAX_KEYFRAMES
         then writeAnswer d
                (Packet CMD_READ_KEYFRAME (Keyframe_bytes (g_keyframe_memory d ! unat (payload 0))))
         else d\<lparr>out_of_bounds := True\<rparr>)
      else if cmd = CMD_CONFIG then
        (if motion_isPlaying d then d
         else if len = sizeof_Config
         then writeAnswer (call (d\<lparr>mem_config := Config_at payload\<rparr>) Call_isInStartPosition)
                (SimplePacket CMD_CONFIG)
         else if len = 0
         then writeAnswer d (Packet CMD_CONFIG (Config_bytes (mem_config d)))
         else d)
      else if cmd = CMD_RESET then
        (if map (\<lambda>i. payload (of_nat i)) [0..<8] = RESET_KEY then call d Jump_bootloader else d)
      else if cmd = CMD_COMMIT then writeAnswer (motion_commit d) (SimplePacket CMD_COMMIT)
      else if cmd = CMD_PLAY then
        (let d1 = writeAnswer d (SimplePacket CMD_PLAY) in
         if \<not> motion_isPlaying d1 then call d1 (Call_runSequence (payload 0 AND 1 \<noteq> 0))
         else d1)
      else if cmd = CMD_STOP then writeAnswer (motion_stop d) (SimplePacket CMD_STOP)
      else if cmd = CMD_MOTION then
        call (call d Call_executeSingleMotion) (Call_writeFeedbackPacket CMD_MOTION)
      else if cmd = CMD_FEEDBACK then call d (Call_writeFeedbackPacket CMD_FEEDBACK)
      else d)"

section \<open>Boot-time validation of the stored configuration (microcontroller/mem.cpp)\<close>

definition mem_init :: "device \<Rightarrow> device" where
  "mem_init d =
     (let c = g_config_memory d in
      if active_axes c = 0xFFFF \<or> num_keyframes c \<ge> of_nat MAX_KEYFRAMES
      then call (d\<lparr>mem_config := c\<lparr>active_axes := 4, num_keyframes := 0\<rparr>\<rparr>)
             (Print (''No valid configuration found in EEPROM'' @ [CHR 0x0A]))
      else d\<lparr>mem_config := c\<rparr>)"

section \<open>The mode-switch matcher of the passthrough loop (microcontroller main)\<close>

definition initPacket :: "u8 list" where
  "initPacket = SimplePacket CMD_INIT"

text \<open>
  One run of the inner \<^verbatim>\<open>do ... while(com_buf_to_bot.available())\<close> loop over the bytes
  that the ring buffer holds during the run. The result is the bytes put on the RS-485
  bus, whether the extended mode was entered, and the final offset. A byte equal to
  \<^verbatim>\<open>initPacket[offset]\<close> advances the offset; any other byte makes the loop replay the
  matched bytes and the byte itself and reset the offset. At offset 6 the ring buffer is
  flushed (the rest of the burst is dropped), \<^verbatim>\<open>handleCommand(CMD_INIT, 0, 0)\<close> and
  \<^verbatim>\<open>handleCommands()\<close> run, the buffer is flushed again and the loop ends.
\<close>

fun matcher :: "nat \<Rightarrow> u8 list \<Rightarrow> u8 list \<times> bool \<times> nat" where
  "matcher offset [] = ([], False, offset)"
| "matcher offset (c # cs) =
     (if c = initPacket ! offset
      then (if offset + 1 = length initPacket then ([], True, offset + 1)
            else matcher (offset + 1) cs)
      else (case matcher 0 cs of
              (bus, ext, off) \<Rightarrow> (take offset initPacket @ [c] @ bus, ext, off)))"

text \<open>
  The outer \<^verbatim>\<open>while(1)\<close> loop of \<^verbatim>\<open>main\<close> with the button released, over the bursts
  of bytes that arrive: it waits until the ring buffer is not empty, sets
  \<^verbatim>\<open>offset = 0\<close> and runs the matcher loop until the ring buffer is empty. The result
  is the bytes forwarded to the bus and whether the extended mode was entered.
\<close>

fun main_passthrough :: "u8 list list \<Rightarrow> u8 list \<times> bool" where
  "main_passthrough [] = ([], False)"
| "main_passthrough (burst # bursts) =
     (if burst = [] then main_passthrough bursts
      else (case matcher 0 burst of
              (bus, ext, off) \<Rightarrow>
                (case main_passthrough bursts of
                   (bus', ext') \<Rightarrow> (bus @ bus', ext \<or> ext'))))"

section \<open>The look-ahead velocity of the playback loop (motion_runSequence)\<close>

text \<open>
  The arithmetic is that of the AVR target: \<^verbatim>\<open>int32_t\<close> values are 32-bit words with
  signed division truncating towards zero, \<^verbatim>\<open>uint16_t\<close> operands are widened without
  sign. \<^verbatim>\<open>abs\<close> is the absolute value of its 32-bit operand.
\<close>

definition sdiv32 :: "i32 \<Rightarrow> i32 \<Rightarrow> i32" where
  "sdiv32 a b = word_of_int (sint a sdiv sint b)"

definition labs :: "i32 \<Rightarrow> i32" where
  "labs x = (if x <s 0 then - x else x)"

definition maxSpeed :: "u16 \<Rightarrow> i32" where
  "maxSpeed e = (ucast e * 7000) div 256"

definition orig_vel :: "i32 \<Rightarrow> i32 \<Rightarrow> i32 \<Rightarrow> i32" where
  "orig_vel from to dur = sdiv32 (1000 * (to - from)) dur"

definition lookahead_dest :: "i32 \<Rightarrow> i32 \<Rightarrow> i32 \<Rightarrow> i32 \<Rightarrow> i32" where
  "lookahead_dest from to dur delta = from + sdiv32 (delta * orig_vel from to dur) 1000"

definition lookahead_vel :: "i32 \<Rightarrow> i16 \<Rightarrow> u16 \<Rightarrow> u16 \<Rightarrow> i32" where
  "lookahead_vel dest encPos la e =
     sdiv32 (labs (sdiv32 (1000 * (dest - scast encPos)) (ucast la)) * ucast e) 256"

definition clamp_speed :: "i32 \<Rightarrow> i32 \<Rightarrow> i32" where
  "clamp_speed vel mx = (if vel <s 100 then 100 else if mx <s vel then mx else vel)"

text \<open>
  What one pass of the axis loop commands for an axis, after the look-ahead window has
  been placed (\<open>from\<close>, \<open>to\<close>, \<open>dur\<close>, \<open>delta\<close>): the arguments of
  \<^verbatim>\<open>nt_setDestination\<close> and \<^verbatim>\<open>nt_setVelocity\<close>, both \<^verbatim>\<open>uint16_t\<close>. \<open>enc\<close> is the
  answer of \<^verbatim>\<open>nt_encoderPosition\<close>, \<open>None\<close> when the read fails. With a look-ahead
  of 0 the destination is the keyframe and the velocity is not clamped; with a failed
  read nothing is commanded.
\<close>

definition axis_command ::
  "i32 \<Rightarrow> i32 \<Rightarrow> i32 \<Rightarrow> i32 \<Rightarrow> u16 \<Rightarrow> u16 \<Rightarrow> i16 option \<Rightarrow> (u16 \<times> u16) option" where
  "axis_command from to dur delta la e enc =
     (if la \<noteq> 0 \<and> enc \<noteq> None
      then (let dest = lookahead_dest from to dur delta;
                vel = lookahead_vel dest (the enc) la e;
                speed = clamp_speed vel (maxSpeed e)
            in Some (ucast (dest + 16384), ucast speed))
      else if la = 0
      then Some (ucast (to + 16384), ucast (labs (orig_vel from to dur)))
      else None)"

section \<open>Host side: joint configuration and the angle to tick transform\<close>

text \<open>
  The host computes in \<^verbatim>\<open>double\<close>; the model computes in the real numbers, of which
  the doubles are approximations. Conversions to the integer types of the wire format are
  written out.
\<close>

record JointInfo =
  address :: int
  offset :: real
  enc_to_rad :: real
  mot_to_rad :: real
  invert :: bool






section \<open>Host side: the keyframe player's timeline (KeyframePlayer::playTheseFrames)\<close>


record Keyframe =
  jointAngles :: "(string \<times> real) list"
  speed :: int
  pause :: real
  outputCommand :: int
















section \<open>Host side: the sequence uploader (RobotInterface::transferKeyframes)\<close>








section \<open>Keyframe text lines (Keyframe::toString, fromString, validateString)\<close>

subsection \<open>Regular expressions\<close>





















subsection \<open>Numbers as text\<close>




subsection \<open>Writing and reading a line\<close>









subsection \<open>Notions for the round trip\<close>















section \<open>Concrete inputs\<close>

definition kf_zero :: proto_Keyframe where
  "kf_zero = \<lparr>duration = 0, ticks = replicate 8 0, output_command = 0\<rparr>"

definition kf_a :: proto_Keyframe where
  "kf_a = \<lparr>duration = 0, ticks = replicate 8 16384, output_command = 0\<rparr>"

definition kf_b :: proto_Keyframe where
  "kf_b = \<lparr>duration = 1000, ticks = replicate 8 16964, output_command = 1\<rparr>"

definition config_a :: proto_Config where
  "config_a = \<lparr>num_keyframes = 2, active_axes = 1, enc_to_mot = replicate 8 256,
     lookahead = 200\<rparr>"

text \<open>The EEPROM image of the configuration as flashed: \<^verbatim>\<open>{0xF, 0}\<close>.\<close>

definition config_flashed :: proto_Config where
  "config_flashed = \<lparr>num_keyframes = 0xF, active_axes = 0, enc_to_mot = replicate 8 0,
     lookahead = 0\<rparr>"

text \<open>
  A device that plays a sequence uploaded with CONFIG and two SAVE_KEYFRAME but not
  committed: the RAM buffer holds it, the EEPROM still holds the flashed image.
\<close>

definition device_playing :: device where
  "device_playing =
     \<lparr>mem_config = config_a,
      g_buffer = kf_a # kf_b # replicate 126 kf_zero,
      g_keyframe_memory = kf_zero # kf_zero # replicate 126 kf_zero,
      g_config_memory = config_flashed,
      g_isPlaying = True, g_shouldStop = False, g_extShouldQuit = False,
      effects = [], out_of_bounds = False\<rparr>"

definition device_idle :: device where
  "device_idle = device_playing\<lparr>g_isPlaying := False\<rparr>"

text \<open>A SAVE_KEYFRAME payload: one index byte followed by nineteen keyframe bytes.\<close>

definition save_payload :: "u8 \<Rightarrow> u8 \<Rightarrow> u8" where
  "save_payload index = (\<lambda>i. if i = 0 then index else if i = 1 then 0x34 else 0)"

definition device_stored :: "u16 \<Rightarrow> device" where
  "device_stored n = device_idle\<lparr>g_config_memory := config_a\<lparr>num_keyframes := n\<rparr>\<rparr>"













section \<open>Round trip of the frame codec\<close>

lemma feed_append:
  "feed p (xs @ ys) = (case feed p xs of (p1, ds1) \<Rightarrow> (case feed p1 ys of (p2, ds2) \<Rightarrow> (p2, ds1 @ ds2)))"
  by (induction xs arbitrary: p) (auto split: prod.splits)

lemma cmd_input_START:
  "parser_state p = PS_START \<Longrightarrow>
   cmd_input p 0xFF = (p\<lparr>payloadIdx := 0, parser_state := PS_VERSION\<rparr>, None)"
  by (simp add: cmd_input_def)

lemma cmd_input_VERSION:
  "parser_state p = PS_VERSION \<Longrightarrow>
   cmd_input p VERSION = (p\<lparr>parser_state := PS_COMMAND\<rparr>, None)"
  by (simp add: cmd_input_def)

lemma cmd_input_COMMAND:
  "parser_state p = PS_COMMAND \<Longrightarrow> c < CMD_COUNT \<Longrightarrow>
   cmd_input p c = (p\<lparr>command := c, parser_state := PS_LENGTH\<rparr>, None)"
  by (simp add: cmd_input_def)

lemma cmd_input_LENGTH:
  "parser_state p = PS_LENGTH \<Longrightarrow>
   cmd_input p l = (p\<lparr>payloadLength := l,
      parser_state := (if l \<noteq> 0 then PS_PAYLOAD else PS_CHECKSUM)\<rparr>, None)"
  by (simp add: cmd_input_def)

lemma cmd_input_PAYLOAD:
  "parser_state p = PS_PAYLOAD \<Longrightarrow>
   cmd_input p c =
     (p\<lparr>payloadBuffer := (payloadBuffer p)(payloadIdx p := c),
        payloadIdx := payloadIdx p + 1,
        parser_state := (if payloadIdx p + 1 = payloadLength p then PS_CHECKSUM else PS_PAYLOAD)\<rparr>,
      None)"
  by (simp add: cmd_input_def Let_def)

lemma cmd_input_CHECKSUM:
  "parser_state p = PS_CHECKSUM \<Longrightarrow> parser_checksum p = c \<Longrightarrow>
   cmd_input p c = (p\<lparr>parser_state := PS_END\<rparr>, None)"
  by (simp add: cmd_input_def)

lemma cmd_input_END:
  "parser_state p = PS_END \<Longrightarrow>
   cmd_input p 0x0D =
     (p\<lparr>parser_state := PS_START\<rparr>, Some (command p, payloadBuffer p, payloadLength p))"
  by (simp add: cmd_input_def)

lemma feed_Cons:
  "cmd_input p c = (p1, d) \<Longrightarrow> feed p1 cs = (p2, ds) \<Longrightarrow>
   feed p (c # cs) = (p2, (case d of None \<Rightarrow> [] | Some x \<Rightarrow> [x]) @ ds)"
  by simp


lemma feed_header:
  assumes "parser_state p = PS_START" "c < CMD_COUNT"
  shows "feed p [0xFF, VERSION, c, l] =
     (p\<lparr>payloadIdx := 0, command := c, payloadLength := l,
         parser_state := (if l \<noteq> 0 then PS_PAYLOAD else PS_CHECKSUM)\<rparr>, [])"
proof -
  let ?p1 = "p\<lparr>payloadIdx := 0, parser_state := PS_VERSION\<rparr>"
  let ?p2 = "?p1\<lparr>parser_state := PS_COMMAND\<rparr>"
  let ?p3 = "?p2\<lparr>command := c, parser_state := PS_LENGTH\<rparr>"
  let ?p4 = "?p3\<lparr>payloadLength := l,
      parser_state := (if l \<noteq> 0 then PS_PAYLOAD else PS_CHECKSUM)\<rparr>"
  have 1: "cmd_input p 0xFF = (?p1, None)" using assms(1) by (rule cmd_input_START)
  have 2: "cmd_input ?p1 VERSION = (?p2, None)" by (rule cmd_input_VERSION) simp
  have 3: "cmd_input ?p2 c = (?p3, None)" using assms(2) by (intro cmd_input_COMMAND) simp_all
  have 4: "cmd_input ?p3 l = (?p4, None)" by (rule cmd_input_LENGTH) simp
  have "feed p [0xFF, VERSION, c, l] = (?p4, [])"
    using 1 2 3 4 by simp
  then show ?thesis by simp
qed

lemma unat_succ_u8: "unat (i::u8) < unat (l :: u8) \<Longrightarrow> unat (i + 1) = unat i + 1"
  using unsigned_less[of l, where 'a=nat] by (simp add: unat_word_ariths)

lemma fill_below:
  "unat i + length xs \<le> 256 \<Longrightarrow> unat k < unat i \<Longrightarrow> fill buf i xs k = buf k"
proof (induction xs arbitrary: buf i)
  case Nil
  then show ?case by simp
next
  case (Cons x xs)
  have ki: "k \<noteq> i" using Cons.prems by auto
  show ?case
  proof (cases xs)
    case Nil
    then show ?thesis using ki by simp
  next
    case (Cons y ys)
    then have "unat i < 255" using Cons.prems by simp
    then have ui: "unat (i + 1) = unat i + 1"
      by (simp add: unat_word_ariths)
    have "fill (buf(i := x)) (i + 1) xs k = (buf(i := x)) k"
      using Cons.prems ui by (intro Cons.IH) simp_all
    then show ?thesis using ki by simp
  qed
qed

lemma fill_at:
  "unat i + length xs \<le> 256 \<Longrightarrow> j < length xs \<Longrightarrow> fill buf i xs (i + of_nat j) = xs ! j"
proof (induction xs arbitrary: buf i j)
  case Nil
  then show ?case by simp
next
  case (Cons x xs)
  show ?case
  proof (cases j)
    case 0
    show ?thesis
    proof (cases xs)
      case Nil
      then show ?thesis using 0 by simp
    next
      case (Cons y ys)
      then have "unat i < 255" using Cons.prems by simp
      then have ui: "unat (i + 1) = unat i + 1"
        by (simp add: unat_word_ariths)
      have "fill (buf(i := x)) (i + 1) xs i = (buf(i := x)) i"
        using Cons.prems ui by (intro fill_below) simp_all
      then show ?thesis using 0 by simp
    qed
  next
    case (Suc j')
    then have "unat i < 255" using Cons.prems by simp
    then have ui: "unat (i + 1) = unat i + 1"
      by (simp add: unat_word_ariths)
    have "fill (buf(i := x)) (i + 1) xs ((i + 1) + of_nat j') = xs ! j'"
      using Cons.prems ui Suc by (intro Cons.IH) simp_all
    then show ?thesis using Suc by (simp add: add.assoc)
  qed
qed


lemma feed_payload:
  assumes "parser_state p = PS_PAYLOAD" "xs \<noteq> []"
    "unat (payloadIdx p) + length xs = unat (payloadLength p)"
  shows "feed p xs = (p\<lparr>payloadBuffer := fill (payloadBuffer p) (payloadIdx p) xs, payloadIdx := payloadLength p, parser_state := PS_CHECKSUM\<rparr>, [])"
  using assms
proof (induction xs arbitrary: p)
  case Nil
  then show ?case by simp
next
  case (Cons x xs)
  let ?p1 = "p\<lparr>payloadBuffer := (payloadBuffer p)(payloadIdx p := x), payloadIdx := payloadIdx p + 1\<rparr>"
  have lt: "unat (payloadIdx p) < unat (payloadLength p)" using Cons.prems by simp
  have ui: "unat (payloadIdx p + 1) = unat (payloadIdx p) + 1"
    using lt by (rule unat_succ_u8)
  show ?case
  proof (cases "xs = []")
    case True
    then have "unat (payloadIdx p + 1) = unat (payloadLength p)" using Cons.prems ui by simp
    then have "payloadIdx p + 1 = payloadLength p" by (simp add: word_unat_eq_iff)
    then show ?thesis using True Cons.prems by (simp add: cmd_input_PAYLOAD fun_upd_def)
  next
    case False
    then obtain y ys where "xs = y # ys" by (cases xs) auto
    then have "unat (payloadIdx p + 1) \<noteq> unat (payloadLength p)" using Cons.prems ui by simp
    then have ne: "payloadIdx p + 1 \<noteq> payloadLength p" by auto
    have step: "cmd_input p x = (?p1, None)" using Cons.prems ne by (simp add: cmd_input_PAYLOAD)
    have "feed ?p1 xs = (?p1\<lparr>payloadBuffer := fill (payloadBuffer ?p1) (payloadIdx ?p1) xs, payloadIdx := payloadLength ?p1, parser_state := PS_CHECKSUM\<rparr>, [])"
      using Cons.prems False ui by (intro Cons.IH) simp_all
    then show ?thesis using step by (simp add: fun_upd_def)
  qed
qed


lemma fold_fill:
  "fold (\<lambda>i checksum. checksum + buf (of_nat i)) [0..<n] s = fold (\<lambda>b checksum. checksum + b) (map (\<lambda>i. buf (of_nat i)) [0..<n]) s"
  by (simp add: fold_map comp_def)

lemma map_fill:
  assumes "length xs \<le> 256"
  shows "map (\<lambda>i. fill buf 0 xs (of_nat i)) [0..<length xs] = xs"
proof (rule nth_equalityI)
  show "length (map (\<lambda>i. fill buf 0 xs (of_nat i)) [0..<length xs]) = length xs" by simp
next
  fix j assume "j < length (map (\<lambda>i. fill buf 0 xs (of_nat i)) [0..<length xs])"
  then have j: "j < length xs" by simp
  have "fill buf 0 xs (0 + of_nat j) = xs ! j"
    using assms j by (intro fill_at) simp_all
  then show "map (\<lambda>i. fill buf 0 xs (of_nat i)) [0..<length xs] ! j = xs ! j"
    using j by simp
qed

text \<open>
  C2. For every command code below \<^verbatim>\<open>CMD_COUNT\<close> and every payload of at most 255
  bytes, the bytes of the encoded packet (0xFF, version 10, command, length, payload,
  checksum, 0x0D), fed in order to the parser in its START state, make the parser call
  \<^verbatim>\<open>handleCommand\<close> exactly once, with the original command, length and payload.
\<close>

theorem packet_roundtrip:
  assumes c: "c < CMD_COUNT" and len: "length payload \<le> 255" and st: "parser_state p = PS_START"
  shows "map packet_of (snd (feed p (Packet c payload))) = [(c, of_nat (length payload), payload)]"
proof -
  let ?l = "of_nat (length payload) :: u8"
  have ul: "unat ?l = length payload" using len by (simp add: unat_of_nat)
  let ?p1 = "p\<lparr>payloadIdx := 0, command := c, payloadLength := ?l,
         parser_state := (if ?l \<noteq> 0 then PS_PAYLOAD else PS_CHECKSUM)\<rparr>"
  let ?buf = "fill (payloadBuffer p) 0 payload"
  let ?p2 = "p\<lparr>payloadIdx := ?l, command := c, payloadLength := ?l, payloadBuffer := ?buf, parser_state := PS_CHECKSUM\<rparr>"
  have h: "feed p [0xFF, VERSION, c, ?l] = (?p1, [])" using st c by (rule feed_header)
  have pl: "feed ?p1 payload = (?p2, [])"
  proof (cases "payload = []")
    case True
    then show ?thesis by simp
  next
    case False
    then have "?l \<noteq> 0" using ul by (metis length_0_conv unat_0)
    then show ?thesis using feed_payload[of ?p1 payload] False ul by simp
  qed
  have ck: "parser_checksum ?p2 = packetChecksum c VERSION ?l payload"
    using len by (simp add: parser_checksum_def packetChecksum_def ul fold_fill map_fill add.commute)
  have tl: "feed ?p2 [packetChecksum c VERSION ?l payload, 0x0D] = (?p2\<lparr>parser_state := PS_START\<rparr>, [(c, ?buf, ?l)])"
    using ck by (simp add: cmd_input_CHECKSUM cmd_input_END)
  have "feed p (Packet c payload) = (?p2\<lparr>parser_state := PS_START\<rparr>, [(c, ?buf, ?l)])"
    unfolding Packet_def using h pl tl by (simp only: feed_append split: prod.splits) simp
  then show ?thesis using len by (simp add: packet_of_def ul map_fill)
qed


theorem packet_roundtrip_witness:
  "CMD_SAVE_KEYFRAME < CMD_COUNT \<and> length [1, 2, 255 :: u8] \<le> 255 \<and>
   parser_state parser_init = PS_START \<and>
   map packet_of (snd (feed parser_init (Packet CMD_SAVE_KEYFRAME [1, 2, 255]))) =
     [(CMD_SAVE_KEYFRAME, 3, [1, 2, 255])]"
  using packet_roundtrip [of CMD_SAVE_KEYFRAME "[1, 2, 255]" parser_init]
  by (simp add: CMD_SAVE_KEYFRAME_def CMD_COUNT_def parser_init_def)

section \<open>Command handling while the sequencer plays\<close>

lemma SimplePacket_bytes:
  "SimplePacket cmd = [0xFF, 0x0A, cmd, 0, NOT (cmd + 10), 0x0D]"
  by (simp add: SimplePacket_def Packet_def packetChecksum_def VERSION_def)

text \<open>CONFIG and SAVE_KEYFRAME return at once while the sequencer plays.\<close>

lemma config_and_save_gated:
  assumes "motion_isPlaying d"
  shows "handleCommand d CMD_CONFIG payload len = d"
    and "handleCommand d CMD_SAVE_KEYFRAME payload len = d"
  using assms
  by (simp_all add: handleCommand_def CMD_CONFIG_def CMD_SAVE_KEYFRAME_def CMD_INIT_def
      CMD_EXIT_def CMD_READ_KEYFRAME_def)

text \<open>
  C1. The claim is that CONFIG, SAVE_KEYFRAME and COMMIT arriving while the sequencer
  plays leave the configuration in RAM, the keyframe buffer in RAM and the non-volatile
  store unchanged and are not answered. The COMMIT case of \<^verbatim>\<open>handleCommand\<close> has no
  such check: on a playing device that holds an uncommitted two-keyframe sequence, COMMIT
  writes both keyframes and the configuration to the EEPROM and sends the COMMIT
  acknowledgement.
\<close>

theorem commit_while_playing:
  "handleCommand device_playing CMD_COMMIT (\<lambda>_. 0) 0 =
     device_playing\<lparr>g_keyframe_memory := kf_a # kf_b # replicate 126 kf_zero,
        g_config_memory := config_a,
        effects := [Answer [0xFF, 0x0A, 6, 0, 0xEF, 0x0D]]\<rparr>"
  apply (simp add: handleCommand_def CMD_COMMIT_def CMD_INIT_def CMD_EXIT_def
      CMD_SAVE_KEYFRAME_def CMD_READ_KEYFRAME_def CMD_CONFIG_def CMD_RESET_def)
  apply (simp add: motion_commit_def writeAnswer_def SimplePacket_bytes)
  apply (simp add: device_playing_def config_a_def MAX_KEYFRAMES_def mem_saveConfig_def
      mem_saveKeyframe_def)
  apply (simp add: upt_rec)
  done

theorem commit_while_playing_witness:
  "motion_isPlaying device_playing \<and>
   g_keyframe_memory (handleCommand device_playing CMD_COMMIT (\<lambda>_. 0) 0) \<noteq>
     g_keyframe_memory device_playing \<and>
   g_config_memory (handleCommand device_playing CMD_COMMIT (\<lambda>_. 0) 0) \<noteq>
     g_config_memory device_playing \<and>
   effects (handleCommand device_playing CMD_COMMIT (\<lambda>_. 0) 0) \<noteq>
     effects device_playing"
  using commit_while_playing
  by (simp add: device_playing_def motion_isPlaying_def kf_a_def kf_zero_def config_a_def
      config_flashed_def)

text \<open>
  C10. A SAVE_KEYFRAME packet of the right payload size that arrives while the sequencer
  does not play and carries an index of \<^verbatim>\<open>MAX_KEYFRAMES\<close> or more changes nothing but
  the reply stream: the keyframe buffer in RAM is as before, and the reply is the
  acknowledgement FF 0A 04 00 F1 0D, the same as for a packet whose keyframe is stored.
\<close>

theorem save_keyframe_dropped_but_acknowledged:
  assumes "len = sizeof_SaveKeyframe" and "\<not> motion_isPlaying d"
    and "MAX_KEYFRAMES \<le> unat (payload 0)" and "unat (stored 0) < MAX_KEYFRAMES"
  shows "handleCommand d CMD_SAVE_KEYFRAME payload len =
           d\<lparr>effects := effects d @ [Answer [0xFF, 0x0A, 4, 0, 0xF1, 0x0D]]\<rparr> \<and>
         g_buffer (handleCommand d CMD_SAVE_KEYFRAME payload len) = g_buffer d \<and>
         effects (handleCommand d CMD_SAVE_KEYFRAME stored len) =
           effects (handleCommand d CMD_SAVE_KEYFRAME payload len)"
  using assms
  by (simp add: handleCommand_def motion_writeToBuffer_def writeAnswer_def SimplePacket_bytes
      CMD_SAVE_KEYFRAME_def CMD_INIT_def CMD_EXIT_def)

theorem save_keyframe_dropped_but_acknowledged_witness:
  "handleCommand device_idle CMD_SAVE_KEYFRAME (save_payload 200) 20 =
     device_idle\<lparr>effects := [Answer [0xFF, 0x0A, 4, 0, 0xF1, 0x0D]]\<rparr> \<and>
   g_buffer (handleCommand device_idle CMD_SAVE_KEYFRAME (save_payload 200) 20) =
     g_buffer device_idle \<and>
   g_buffer (handleCommand device_idle CMD_SAVE_KEYFRAME (save_payload 1) 20) \<noteq>
     g_buffer device_idle \<and>
   effects (handleCommand device_idle CMD_SAVE_KEYFRAME (save_payload 1) 20) =
     effects (handleCommand device_idle CMD_SAVE_KEYFRAME (save_payload 200) 20)"
proof -
  have 1: "(20 :: u8) = sizeof_SaveKeyframe" by (simp add: sizeof_SaveKeyframe_def)
  have 2: "\<not> motion_isPlaying device_idle"
    by (simp add: motion_isPlaying_def device_idle_def device_playing_def)
  have 3: "MAX_KEYFRAMES \<le> unat (save_payload 200 0)"
    by (simp add: MAX_KEYFRAMES_def save_payload_def)
  have 4: "unat (save_payload 1 0) < MAX_KEYFRAMES"
    by (simp add: MAX_KEYFRAMES_def save_payload_def)
  have 5: "g_buffer (handleCommand device_idle CMD_SAVE_KEYFRAME (save_payload 1) 20) \<noteq>
     g_buffer device_idle"
    using 2
    apply (simp add: handleCommand_def motion_writeToBuffer_def writeAnswer_def
        CMD_SAVE_KEYFRAME_def CMD_INIT_def CMD_EXIT_def sizeof_SaveKeyframe_def
        save_payload_def MAX_KEYFRAMES_def)
    apply (simp add: device_idle_def device_playing_def Keyframe_at_def kf_b_def u16_at_def)
    done
  show ?thesis
    using save_keyframe_dropped_but_acknowledged [where len = 20 and d = device_idle
        and payload = "save_payload 200" and stored = "save_payload 1", OF 1 2 3 4] 5
    by (simp add: device_idle_def device_playing_def)
qed

section \<open>Boot-time validity check\<close>

theorem mem_init_boundary_counterexample:
  "unat (num_keyframes (g_config_memory (device_stored 128))) = MAX_KEYFRAMES \<and>
   active_axes (g_config_memory (device_stored 128)) = 1 \<and>
   mem_config (mem_init (device_stored 128)) \<noteq> g_config_memory (device_stored 128) \<and>
   num_keyframes (mem_config (mem_init (device_stored 128))) = 0 \<and>
   active_axes (mem_config (mem_init (device_stored 128))) = 4"
  by (simp add: mem_init_def device_stored_def device_idle_def device_playing_def config_a_def
      MAX_KEYFRAMES_def call_def)

text \<open>
  C7, as amended. A stored configuration whose \<^verbatim>\<open>active_axes\<close> is not 0xFFFF is
  accepted at boot when \<^verbatim>\<open>num_keyframes\<close> is below \<^verbatim>\<open>MAX_KEYFRAMES\<close> (127 is the
  largest accepted count), and is rejected when \<^verbatim>\<open>num_keyframes\<close> is
  \<^verbatim>\<open>MAX_KEYFRAMES\<close> or more (128 and 129 alike): the configuration in RAM then gets
  4 active axes and 0 keyframes.
\<close>

theorem mem_init_boundary:
  assumes "active_axes (g_config_memory d) \<noteq> 0xFFFF"
  shows "(unat (num_keyframes (g_config_memory d)) < MAX_KEYFRAMES \<longrightarrow>
            mem_init d = d\<lparr>mem_config := g_config_memory d\<rparr>) \<and>
         (MAX_KEYFRAMES \<le> unat (num_keyframes (g_config_memory d)) \<longrightarrow>
            mem_config (mem_init d) =
              (g_config_memory d)\<lparr>active_axes := 4, num_keyframes := 0\<rparr>)"
  using assms
  by (auto simp add: mem_init_def MAX_KEYFRAMES_def call_def word_le_nat_alt
      word_less_nat_alt)

theorem mem_init_boundary_witness:
  "mem_init (device_stored 127) =
     (device_stored 127)\<lparr>mem_config := config_a\<lparr>num_keyframes := 127\<rparr>\<rparr> \<and>
   mem_config (mem_init (device_stored 128)) =
     config_a\<lparr>active_axes := 4, num_keyframes := 0\<rparr> \<and>
   mem_config (mem_init (device_stored 129)) =
     config_a\<lparr>active_axes := 4, num_keyframes := 0\<rparr>"
proof -
  have c: "g_config_memory (device_stored n) = config_a\<lparr>num_keyframes := n\<rparr>" for n
    by (simp add: device_stored_def)
  have a: "active_axes (g_config_memory (device_stored n)) \<noteq> 0xFFFF" for n
    by (simp add: c config_a_def)
  have 127: "unat (num_keyframes (g_config_memory (device_stored 127))) < MAX_KEYFRAMES"
    by (simp add: c MAX_KEYFRAMES_def)
  have 128: "MAX_KEYFRAMES \<le> unat (num_keyframes (g_config_memory (device_stored 128)))"
    by (simp add: c MAX_KEYFRAMES_def)
  have 129: "MAX_KEYFRAMES \<le> unat (num_keyframes (g_config_memory (device_stored 129)))"
    by (simp add: c MAX_KEYFRAMES_def)
  have "mem_init (device_stored 127) =
      (device_stored 127)\<lparr>mem_config := g_config_memory (device_stored 127)\<rparr>"
    using mem_init_boundary [OF a, of 127] 127 by blast
  moreover have "mem_config (mem_init (device_stored 128)) =
      (g_config_memory (device_stored 128))\<lparr>active_axes := 4, num_keyframes := 0\<rparr>"
    using mem_init_boundary [OF a, of 128] 128 by blast
  moreover have "mem_config (mem_init (device_stored 129)) =
      (g_config_memory (device_stored 129))\<lparr>active_axes := 4, num_keyframes := 0\<rparr>"
    using mem_init_boundary [OF a, of 129] 129 by blast
  ultimately show ?thesis by (simp add: c)
qed

section \<open>Mode switch from passthrough to the extended protocol\<close>

lemma initPacket_bytes: "initPacket = [0xFF, 0x0A, 0x00, 0x00, 0xF5, 0x0D]"
  by (simp add: initPacket_def SimplePacket_bytes CMD_INIT_def)


lemma matcher_no_start:
  "0xFF \<notin> set cs \<Longrightarrow> matcher 0 cs = (cs, False, 0)"
  by (induction cs) (auto simp: initPacket_bytes)



lemma splits:
  assumes "b1 @ b2 = [x0, x1, x2, x3, x4, x5]" "b1 \<noteq> []" "b2 \<noteq> []"
  shows "(b1 = [x0] \<and> b2 = [x1, x2, x3, x4, x5]) \<or> (b1 = [x0, x1] \<and> b2 = [x2, x3, x4, x5]) \<or>
    (b1 = [x0, x1, x2] \<and> b2 = [x3, x4, x5]) \<or> (b1 = [x0, x1, x2, x3] \<and> b2 = [x4, x5]) \<or>
    (b1 = [x0, x1, x2, x3, x4] \<and> b2 = [x5])"
  using assms by (auto simp: append_eq_Cons_conv Cons_eq_append_conv)

text \<open>
  A partial match does not outlive the run of the matcher loop: \<^verbatim>\<open>offset\<close> is set to 0
  again on the next pass of the outer loop. The bytes matched before the ring buffer ran
  empty are neither put on the bus nor matched; only the second burst reaches the bus.
\<close>

lemma split_prefix_lost:
  assumes "b1 \<noteq> []" "b2 \<noteq> []" "b1 @ b2 = initPacket"
  shows "main_passthrough [b1, b2] = (b2, False)"
proof -
  have "b1 @ b2 = [0xFF, 0x0A, 0x00, 0x00, 0xF5, 0x0D]"
    using assms(3) by (simp add: initPacket_bytes)
  from splits [OF this assms(1,2)] show ?thesis
    by (auto simp: initPacket_bytes)
qed



section \<open>Look-ahead velocity\<close>

lemma unat_ucast_u16: "unat (ucast e :: i32) = unat e" for e :: u16
proof -
  have "unat e < 2 ^ 32" using unsigned_less [of e, where 'a = nat] by simp
  then show ?thesis by (simp add: unsigned_ucast_eq take_bit_nat_eq_self)
qed

lemma uint_less_of_unat: "unat w < 2147483648 \<Longrightarrow> uint w < 2147483648" for w :: i32
  using uint_nat [of w] by linarith

lemma sint_eq_uint_small: "uint w < 2147483648 \<Longrightarrow> sint w = uint w" for w :: i32
proof -
  assume a: "uint w < 2147483648"
  have "- 2147483648 \<le> uint w" using uint_ge_0 [of w] by linarith
  then have "signed_take_bit 31 (uint w) = uint w"
    using a by (intro signed_take_bit_int_eq_self) simp_all
  then show ?thesis by (simp add: sint_uint)
qed

lemma uint_eq_sint_nonneg: "0 \<le> sint w \<Longrightarrow> uint w = sint w" for w :: i32
proof -
  assume a: "0 \<le> sint w"
  have "sint w < 2 ^ 32" using sint_lt [of w] by simp
  then have "take_bit 32 (sint w) = sint w" using a by (intro take_bit_int_eq_self) simp_all
  then show ?thesis using uint_sint [of w] by simp
qed

lemma unat_eq_sint_nonneg: "0 \<le> sint s \<Longrightarrow> int (unat s) = sint s" for s :: i32
  using uint_eq_sint_nonneg [of s] uint_nat [of s] by linarith

lemma uint_ge_of_unat: "100 \<le> unat w \<Longrightarrow> 100 \<le> uint w" for w :: i32
  using uint_nat [of w] by linarith


lemma unat_ucast_i32:
  "0 \<le> sint s \<Longrightarrow> sint s \<le> 65535 \<Longrightarrow> int (unat (ucast s :: u16)) = sint s"
  for s :: i32
proof -
  assume a: "0 \<le> sint s" "sint s \<le> 65535"
  have e: "int (unat s) = sint s" using a(1) by (rule unat_eq_sint_nonneg)
  then have "unat s < 65536" using a(2) by linarith
  then have "take_bit 16 (unat s) = unat s" by (intro take_bit_nat_eq_self) simp
  then have "unat (ucast s :: u16) = unat s" by (simp add: unsigned_ucast_eq)
  then show ?thesis using e by simp
qed

lemma unat_maxSpeed: "unat (maxSpeed e) = unat e * 7000 div 256"
proof -
  have "unat e < 65536" using unsigned_less [of e, where 'a = nat] by simp
  then have "unat e * 7000 < 2 ^ 32" by simp
  then have "unat ((ucast e :: i32) * 7000) = unat e * 7000"
    by (simp add: unat_word_ariths unat_ucast_u16)
  then show ?thesis by (simp add: maxSpeed_def unat_div)
qed

lemma clamp_speed_range:
  assumes "100 \<le> sint mx"
  shows "100 \<le> sint (clamp_speed vel mx) \<and> sint (clamp_speed vel mx) \<le> sint mx"
  using assms by (auto simp: clamp_speed_def word_sless_alt)

text \<open>
  With \<^verbatim>\<open>enc_to_mot\<close> 0 the velocity 100 is commanded while the upper bound is 0; with
  \<^verbatim>\<open>enc_to_mot\<close> 1 the velocity 27 is commanded, below 100; with \<^verbatim>\<open>enc_to_mot\<close>
  2400 the clamped speed 65540 does not fit the \<^verbatim>\<open>uint16_t\<close> argument of
  \<^verbatim>\<open>nt_setVelocity\<close> and 4 is commanded.
\<close>

theorem lookahead_velocity_counterexample:
  "axis_command 0 1000 1000 500 200 0 (Some 450) = Some (16884, 100) \<and> maxSpeed 0 = 0 \<and>
   axis_command 0 1000 1000 500 200 1 (Some (- 30000)) = Some (16884, 27) \<and> maxSpeed 1 = 27 \<and>
   axis_command 0 0 1000 1000 1000 2400 (Some (- 6991)) = Some (16384, 4) \<and>
   maxSpeed 2400 = 65625"
  by (simp add: axis_command_def lookahead_dest_def orig_vel_def lookahead_vel_def
      clamp_speed_def maxSpeed_def labs_def sdiv32_def word_sless_alt)

text \<open>
  C5, as amended. With \<^verbatim>\<open>enc_to_mot\<close> 256, look-ahead 200, from 0, to 1000, duration
  1000 and a window delta of 500 the expected position is 500, and with the encoder at
  450 the commanded velocity is 250. In general, when \<^verbatim>\<open>enc_to_mot[j]\<close> is between 4
  and 2396 (so that 100 \<le> enc_to_mot[j] * 7000 / 256 \<le> 65535), every velocity commanded
  on this path lies between 100 and enc_to_mot[j] * 7000 / 256.
\<close>

theorem lookahead_velocity:
  "lookahead_dest 0 1000 1000 500 = 500 \<and>
   axis_command 0 1000 1000 500 200 256 (Some 450) = Some (16884, 250) \<and>
   (\<forall>from to dur delta la e encPos.
      la \<noteq> 0 \<and> 4 \<le> unat e \<and> unat e \<le> 2396 \<longrightarrow>
      (\<exists>dest v. axis_command from to dur delta la e (Some encPos) = Some (dest, v) \<and>
         100 \<le> unat v \<and> unat v \<le> unat e * 7000 div 256))"
proof (intro conjI allI impI)
  show "lookahead_dest 0 1000 1000 500 = 500"
    by (simp add: lookahead_dest_def orig_vel_def sdiv32_def)
  show "axis_command 0 1000 1000 500 200 256 (Some 450) = Some (16884, 250)"
    by (simp add: axis_command_def lookahead_dest_def orig_vel_def lookahead_vel_def
      clamp_speed_def maxSpeed_def labs_def sdiv32_def word_sless_alt)
next
  fix "from" to dur delta :: i32 and la e :: u16 and encPos :: i16
  assume a: "la \<noteq> 0 \<and> 4 \<le> unat e \<and> unat e \<le> 2396"
  let ?mx = "maxSpeed e"
  let ?dest = "lookahead_dest from to dur delta"
  let ?s = "clamp_speed (lookahead_vel ?dest encPos la e) ?mx"
  have um: "unat ?mx = unat e * 7000 div 256" by (rule unat_maxSpeed)
  have lo: "100 \<le> unat ?mx" and hi: "unat ?mx \<le> 65535" using a um by auto
  have "uint ?mx < 2147483648" using hi by (intro uint_less_of_unat) linarith
  then have "sint ?mx = uint ?mx" by (rule sint_eq_uint_small)
  then have sm: "sint ?mx = int (unat ?mx)" using uint_nat [of ?mx] by linarith
  have r: "100 \<le> sint ?s \<and> sint ?s \<le> sint ?mx"
    using lo sm by (intro clamp_speed_range) linarith
  have us: "int (unat (ucast ?s :: u16)) = sint ?s"
    using r sm hi by (intro unat_ucast_i32) linarith+
  have "axis_command from to dur delta la e (Some encPos) = Some (ucast (?dest + 16384), ucast ?s)"
    using a by (simp add: axis_command_def Let_def)
  moreover have "100 \<le> unat (ucast ?s :: u16)" using r us by linarith
  moreover have "unat (ucast ?s :: u16) \<le> unat e * 7000 div 256" using r us sm um by linarith
  ultimately show "\<exists>dest v. axis_command from to dur delta la e (Some encPos) = Some (dest, v) \<and>
         100 \<le> unat v \<and> unat v \<le> unat e * 7000 div 256" by blast
qed


theorem lookahead_velocity_witness:
  "(200 :: u16) \<noteq> 0 \<and> 4 \<le> unat (256 :: u16) \<and> unat (256 :: u16) \<le> 2396 \<and>
   axis_command 0 1000 1000 500 200 256 (Some 450) = Some (16884, 250) \<and>
   (\<exists>dest v. axis_command 0 1000 1000 500 200 256 (Some 450) = Some (dest, v) \<and>
      100 \<le> unat v \<and> unat v \<le> unat (256 :: u16) * 7000 div 256)"
proof -
  have h: "(200 :: u16) \<noteq> 0 \<and> 4 \<le> unat (256 :: u16) \<and> unat (256 :: u16) \<le> 2396" by simp
  have "\<exists>dest v. axis_command 0 1000 1000 500 200 256 (Some 450) = Some (dest, v) \<and>
      100 \<le> unat v \<and> unat v \<le> unat (256 :: u16) * 7000 div 256"
    using lookahead_velocity h by blast
  moreover have "axis_command 0 1000 1000 500 200 256 (Some 450) = Some (16884, 250)"
    using lookahead_velocity by blast
  ultimately show ?thesis using h by blast
qed

section \<open>Upload of a sequence\<close>








section \<open>Angle to tick and back\<close>






section \<open>Hold items of the keyframe player\<close>









section \<open>Round trip of the keyframe text line\<close>














































end
